theory Spec2Isabelle
  imports Complex_Main "HOL-Library.Char_ord" "HOL-Library.List_Lexorder"
begin

section \<open>Data model\<close>

text \<open>
  The dashboard works on one pandas DataFrame. \<open>pd.read_csv\<close> is called without a
  \<open>dtype\<close>, so a column of the file comes back as text or, when all its fields parse as
  such, as numbers or booleans. A value is therefore a \<open>str\<close> or a number. Python's
  \<open>bool\<close> is a numeric type (\<open>True == 1\<close>, \<open>False == 0\<close>, equal hashes, ordered and
  tested for truth as these numbers), so \<open>True\<close> and \<open>False\<close> are the numbers 1 and 0
  here; a finite float is the rational it denotes. A cell is missing (pandas' NaN, here
  \<open>None\<close>) or holds a value.
\<close>

datatype pyval = Str string | Num rat

type_synonym cell = "pyval option"

abbreviation str :: "string \<Rightarrow> cell" where
  "str s \<equiv> Some (Str s)"

abbreviation num :: "rat \<Rightarrow> cell" where
  "num q \<equiv> Some (Num q)"

text \<open>
  The order in which pandas sorts group keys: numbers by value, strings as Python
  compares them (by character), and, where a key column holds both, numbers first.
\<close>

instantiation pyval :: linorder
begin

fun less_eq_pyval :: "pyval \<Rightarrow> pyval \<Rightarrow> bool" where
  "less_eq_pyval (Num x) (Num y) = (x \<le> y)"
| "less_eq_pyval (Num x) (Str t) = True"
| "less_eq_pyval (Str s) (Num y) = False"
| "less_eq_pyval (Str s) (Str t) = (s \<le> t)"

definition less_pyval :: "pyval \<Rightarrow> pyval \<Rightarrow> bool" where
  "less_pyval a b = (a \<le> b \<and> \<not> b \<le> a)"

instance
proof
  fix x y z :: pyval
  show "(x < y) = (x \<le> y \<and> \<not> y \<le> x)"
    by (simp add: less_pyval_def)
  show "x \<le> x"
    by (cases x) simp_all
  show "x \<le> y \<Longrightarrow> y \<le> z \<Longrightarrow> x \<le> z"
    by (cases x; cases y; cases z) auto
  show "x \<le> y \<Longrightarrow> y \<le> x \<Longrightarrow> x = y"
    by (cases x; cases y) auto
  show "x \<le> y \<or> y \<le> x"
    by (cases x; cases y) auto
qed

end

text \<open>
  What \<open>pd.read_csv\<close> hands back: a frame with some number of columns and its data
  records. The reader itself is a library call; its result is the input of the model.
  pandas gives every record the width of the frame, padding a short line of the file
  with NaN; \<open>cell_at\<close> reads a cell of a record that way.
\<close>

record raw_frame =
  n_columns :: nat
  records :: "cell list list"

definition cell_at :: "cell list \<Rightarrow> nat \<Rightarrow> cell" where
  "cell_at r k = (if k < length r then r ! k else None)"

text \<open>A row under the five canonical column names assigned in \<open>load_data\<close>.\<close>

record assignment =
  agent_code :: cell
  agent_name :: cell
  user_id :: cell
  user_name :: cell
  role :: cell

type_synonym table = "assignment list"

text \<open>
  The exceptions the program can raise: those of the reader (passed through by
  \<open>load_data\<close>), the \<open>ValueError\<close> of assigning five column names to a frame of another
  width, and the \<open>TypeError\<close> of comparing a \<open>str\<close> with a number or NaN in \<open>sorted\<close> and
  of joining something that is not a \<open>str\<close>.
\<close>

datatype py_error = FileNotFoundError | ParserError | EmptyDataError | ValueError | TypeError

section \<open>pandas and Python primitives used by the program\<close>

text \<open>\<open>Series.notna\<close> on one cell.\<close>

definition notna :: "'a option \<Rightarrow> bool" where
  "notna c = (case c of None \<Rightarrow> False | Some _ \<Rightarrow> True)"

text \<open>\<open>Series.dropna\<close>: the values of the non-missing cells, in order.\<close>

fun dropna :: "'a option list \<Rightarrow> 'a list" where
  "dropna [] = []"
| "dropna (None # cs) = dropna cs"
| "dropna (Some v # cs) = v # dropna cs"

text \<open>
  \<open>Series.ffill\<close>: a missing cell takes the last value seen above it in the column;
  \<open>ffill_from\<close> carries that value (missing while none has been seen).
\<close>

fun ffill_from :: "'a option \<Rightarrow> 'a option list \<Rightarrow> 'a option list" where
  "ffill_from prev [] = []"
| "ffill_from prev (None # cs) = prev # ffill_from prev cs"
| "ffill_from prev (Some v # cs) = Some v # ffill_from (Some v) cs"

definition ffill :: "'a option list \<Rightarrow> 'a option list" where
  "ffill cs = ffill_from None cs"

text \<open>
  \<open>Series.unique\<close> and \<open>DataFrame.drop_duplicates\<close>: the first occurrence of every
  value is kept, in the order of appearance; two missing cells count as equal.
\<close>

fun unique :: "'a list \<Rightarrow> 'a list" where
  "unique [] = []"
| "unique (x # xs) = x # unique (filter (\<lambda>y. y \<noteq> x) xs)"

definition drop_duplicates :: "'a list \<Rightarrow> 'a list" where
  "drop_duplicates xs = unique xs"

text \<open>\<open>Series.nunique\<close>: the number of distinct non-missing values.\<close>

definition nunique :: "'a option list \<Rightarrow> nat" where
  "nunique cs = length (unique (dropna cs))"

text \<open>
  \<open>Series.sort_values(ascending=False)\<close> on a series of counts indexed by a key, and
  the descending order \<open>value_counts\<close> returns. pandas does not promise an order among
  equal counts; the model keeps them in their incoming order and no theorem below
  depends on that.
\<close>

definition sort_values_desc :: "('k \<times> nat) list \<Rightarrow> ('k \<times> nat) list" where
  "sort_values_desc ps = sort_key (\<lambda>p. - int (snd p)) ps"

text \<open>\<open>Series.value_counts\<close>: every non-missing value with its number of occurrences.\<close>

definition value_counts :: "'a option list \<Rightarrow> ('a \<times> nat) list" where
  "value_counts cs =
     (let vs = dropna cs
      in sort_values_desc (map (\<lambda>v. (v, length (filter (\<lambda>w. w = v) vs))) (unique vs)))"

text \<open>
  The keys of \<open>groupby\<close> (with its defaults \<open>sort=True\<close>, \<open>dropna=True\<close>): the distinct
  non-missing values of the key column in ascending order.
\<close>

definition group_keys :: "cell list \<Rightarrow> pyval list" where
  "group_keys cs = sort (unique (dropna cs))"

text \<open>
  Python's \<open>sorted\<close> compares the elements with \<open><\<close>. Between a \<open>str\<close> and a number, and
  between a \<open>str\<close> and NaN (a float), the comparison raises \<open>TypeError\<close>; among numbers
  and NaN it does not. A sort cannot finish without having compared, directly or through
  a chain, every element with every other, so \<open>sorted\<close> raises exactly on a list that
  holds a \<open>str\<close> beside something that is not one. The pages use the sorted lists only as
  the options of a select box, so only whether the call raises is modelled.
\<close>

fun is_str :: "cell \<Rightarrow> bool" where
  "is_str (Some (Str s)) = True"
| "is_str (Some (Num q)) = False"
| "is_str None = False"

definition sortable :: "cell list \<Rightarrow> bool" where
  "sortable cs \<longleftrightarrow> list_all is_str cs \<or> list_all (\<lambda>c. \<not> is_str c) cs"

text \<open>The strings among some cells, in order.\<close>

fun str_values :: "cell list \<Rightarrow> string list" where
  "str_values [] = []"
| "str_values (Some (Str s) # cs) = s # str_values cs"
| "str_values (Some (Num q) # cs) = str_values cs"
| "str_values (None # cs) = str_values cs"

text \<open>Python's \<open>sep.join(xs)\<close> on strings.\<close>

fun join :: "string \<Rightarrow> string list \<Rightarrow> string" where
  "join sep [] = []"
| "join sep [x] = x"
| "join sep (x # y # ys) = x @ sep @ join sep (y # ys)"

text \<open>
  What \<open>st.selectbox\<close> returns: Python's \<open>None\<close> when it has no options, otherwise one of
  the options, which is a value of the column or, where the options were not cleared of
  it, NaN.
\<close>

datatype selection = NoSelection | Selected cell

text \<open>
  The truth value Python gives a selection in \<open>if selected:\<close>. \<open>None\<close>, the empty
  string, zero and \<open>False\<close> are false; NaN is a float other than zero and is true.
\<close>

fun truthy :: "selection \<Rightarrow> bool" where
  "truthy NoSelection = False"
| "truthy (Selected None) = True"
| "truthy (Selected (Some (Str s))) = (s \<noteq> [])"
| "truthy (Selected (Some (Num q))) = (q \<noteq> 0)"

text \<open>
  One entry of the mask \<open>df[col] == selected\<close>: true on a cell that holds the selected
  value. NaN equals nothing, itself included, and so does \<open>None\<close>.
\<close>

fun equals_selected :: "selection \<Rightarrow> cell \<Rightarrow> bool" where
  "equals_selected (Selected (Some v)) c = (c = Some v)"
| "equals_selected (Selected None) c = False"
| "equals_selected NoSelection c = False"

section \<open>The loader\<close>

definition to_row :: "cell list \<Rightarrow> assignment" where
  "to_row r = \<lparr>agent_code = cell_at r 0, agent_name = cell_at r 1, user_id = cell_at r 2,
              user_name = cell_at r 3, role = cell_at r 4\<rparr>"

text \<open>
  Line 10 of \<open>users.py\<close>: the four identifying columns are forward-filled, each on its
  own; the Role column is left as it is.
\<close>

definition ffill_columns :: "table \<Rightarrow> table" where
  "ffill_columns t =
     (let c1 = ffill (map agent_code t); c2 = ffill (map agent_name t);
          c3 = ffill (map user_id t); c4 = ffill (map user_name t)
      in map (\<lambda>i. \<lparr>agent_code = c1 ! i, agent_name = c2 ! i, user_id = c3 ! i,
                    user_name = c4 ! i, role = role (t ! i)\<rparr>) [0..<length t])"

text \<open>
  Line 11: the rows with a Role are kept, in order (\<open>reset_index(drop=True)\<close> renumbers
  them, which a list does by itself).
\<close>

definition drop_missing_role :: "table \<Rightarrow> table" where
  "drop_missing_role t = filter (\<lambda>r. notna (role r)) t"

text \<open>
  \<open>load_data\<close>, lines 7 to 12. The argument is the outcome of \<open>pd.read_csv\<close>: an
  exception, which \<open>load_data\<close> does not catch, or the frame read. Assigning the five
  names to \<open>df.columns\<close> raises \<open>ValueError\<close> on a frame that has not five columns.
\<close>

definition load_data :: "py_error + raw_frame \<Rightarrow> py_error + table" where
  "load_data csv =
     (case csv of
        Inl e \<Rightarrow> Inl e
      | Inr f \<Rightarrow>
          if n_columns f \<noteq> 5 then Inl ValueError
          else Inr (drop_missing_role (ffill_columns (map to_row (records f)))))"

text \<open>
  \<open>@st.cache_data\<close> around \<open>load_data\<close>: the first successful result is kept for the
  life of the process and handed out on every later call; an exception is not cached.
\<close>

definition cached_load_data ::
    "table option \<Rightarrow> py_error + raw_frame \<Rightarrow> (py_error + table) \<times> table option" where
  "cached_load_data cache csv =
     (case cache of
        Some t \<Rightarrow> (Inr t, Some t)
      | None \<Rightarrow>
          (case load_data csv of
             Inl e \<Rightarrow> (Inl e, None)
           | Inr t \<Rightarrow> (Inr t, Some t)))"

section \<open>The views\<close>

text \<open>\<open>page_statistics\<close>, lines 20 to 34: what the page computes and displays.\<close>

record statistics =
  num_users :: nat
  num_agents :: nat
  num_roles :: nat
  users_per_agent :: "(pyval \<times> nat) list"
  role_counts :: "(pyval \<times> nat) list"

text \<open>\<open>df.groupby('Agent Name')['User ID'].nunique()\<close>, used by two pages.\<close>

definition users_by_agent :: "table \<Rightarrow> (pyval \<times> nat) list" where
  "users_by_agent df =
     map (\<lambda>a. (a, nunique (map user_id (filter (\<lambda>r. agent_name r = Some a) df))))
         (group_keys (map agent_name df))"

definition page_statistics :: "table \<Rightarrow> statistics" where
  "page_statistics df =
     \<lparr>num_users = nunique (map user_id df),
      num_agents = nunique (map agent_name df),
      num_roles = nunique (map role df),
      users_per_agent = sort_values_desc (users_by_agent df),
      role_counts = value_counts (map role df)\<rparr>"

text \<open>
  A page that selects first has three outcomes: an exception, nothing shown because the
  guard \<open>if selected:\<close> is false (\<open>Inr None\<close>), or what it shows. The selection is the
  user's and is an argument of the page.
\<close>

text \<open>
  \<open>page_filter_by_role\<close>, lines 40 to 48. Line 40 sorts the distinct roles for the
  select box. Under the guard, the rows of the grid, as (User ID, User Name, Agent Name),
  and the number written as "Total users".
\<close>

definition page_filter_by_role ::
    "table \<Rightarrow> selection \<Rightarrow> py_error + ((cell \<times> cell \<times> cell) list \<times> nat) option" where
  "page_filter_by_role df selected_role =
     (if \<not> sortable (unique (map role df)) then Inl TypeError
      else if truthy selected_role then
        (let filtered_df = filter (\<lambda>r. equals_selected selected_role (role r)) df;
             users = drop_duplicates (map (\<lambda>r. (user_id r, user_name r, agent_name r)) filtered_df)
         in Inr (Some (users, length users)))
      else Inr None)"

text \<open>
  \<open>page_filter_by_user\<close>, lines 59 to 68. Line 59 sorts the distinct user names, a
  missing one included, for the select box. Under the guard, the number written as
  "Total roles" and the listed items, in the order of the loop.
\<close>

definition page_filter_by_user ::
    "table \<Rightarrow> selection \<Rightarrow> py_error + (nat \<times> cell list) option" where
  "page_filter_by_user df selected_user =
     (if \<not> sortable (unique (map user_name df)) then Inl TypeError
      else if truthy selected_user then
        (let filtered_df = filter (\<lambda>r. equals_selected selected_user (user_name r)) df;
             roles = unique (map role filtered_df)
         in Inr (Some (length roles, roles)))
      else Inr None)"

text \<open>
  \<open>page_agent_users_roles\<close>, lines 74 to 86. Lines 74 and 75 sort the distinct
  non-missing agent names for the select box. Under the guard, one grid row per group of
  \<open>groupby(['User Name'])\<close>: the user name, the sorted roles joined by a newline, and the
  number of distinct roles. In \<open>'\n'.join(sorted(roles))\<close>, \<open>sorted\<close> raises \<open>TypeError\<close> on
  strings mixed with other values and \<open>join\<close> raises it on anything that is not a \<open>str\<close>,
  so the cell exists only for a group whose roles are all strings; the exception leaves
  the page.
\<close>

record user_roles =
  ur_user_name :: pyval
  ur_roles :: string
  ur_number_of_roles :: nat

definition roles_cell :: "cell list \<Rightarrow> py_error + string" where
  "roles_cell roles =
     (if list_all is_str roles then Inr (join [CHR 0x0A] (sort (str_values roles)))
      else Inl TypeError)"

fun grouped_rows :: "table \<Rightarrow> pyval list \<Rightarrow> py_error + user_roles list" where
  "grouped_rows df_filtered [] = Inr []"
| "grouped_rows df_filtered (u # us) =
     (let roles = unique (map role (filter (\<lambda>r. user_name r = Some u) df_filtered))
      in case roles_cell roles of
           Inl e \<Rightarrow> Inl e
         | Inr s \<Rightarrow>
             (case grouped_rows df_filtered us of
                Inl e \<Rightarrow> Inl e
              | Inr rest \<Rightarrow>
                  Inr (\<lparr>ur_user_name = u, ur_roles = s, ur_number_of_roles = length roles\<rparr> # rest)))"

definition page_agent_users_roles ::
    "table \<Rightarrow> selection \<Rightarrow> py_error + (user_roles list \<times> nat) option" where
  "page_agent_users_roles df selected_agent =
     (if \<not> sortable (map Some (unique (dropna (map agent_name df)))) then Inl TypeError
      else if truthy selected_agent then
        (let df_filtered = filter (\<lambda>r. equals_selected selected_agent (agent_name r)) df
         in case grouped_rows df_filtered (group_keys (map user_name df_filtered)) of
              Inl e \<Rightarrow> Inl e
            | Inr grouped \<Rightarrow> Inr (Some (grouped, length grouped)))
      else Inr None)"

text \<open>\<open>page_agent_user_counts\<close>, lines 105 and 106: the two-column table of the grid.\<close>

definition page_agent_user_counts :: "table \<Rightarrow> (pyval \<times> nat) list" where
  "page_agent_user_counts df = users_by_agent df"

text \<open>The three rows of the specification's examples.\<close>

definition example_table :: table where
  "example_table =
     [\<lparr>agent_code = str ''A1'', agent_name = str ''Agt1'', user_id = str ''U1'',
       user_name = str ''Alice'', role = str ''Admin''\<rparr>,
      \<lparr>agent_code = str ''A1'', agent_name = str ''Agt1'', user_id = str ''U1'',
       user_name = str ''Alice'', role = str ''Viewer''\<rparr>,
      \<lparr>agent_code = str ''A2'', agent_name = str ''Agt2'', user_id = str ''U2'',
       user_name = str ''Bob'', role = str ''Admin''\<rparr>]"

section \<open>Notions of the specification\<close>

text \<open>
  The nearest non-missing value at or before position \<open>i\<close> of a column, read off the
  source column: the last of the values found at the positions \<open>0..i\<close>, missing when
  none of these positions has one.
\<close>

definition last_value_upto :: "'a option list \<Rightarrow> nat \<Rightarrow> 'a option" where
  "last_value_upto cs i =
     (case dropna (take (Suc i) cs) of [] \<Rightarrow> None | v # vs \<Rightarrow> Some (last (v # vs)))"

text \<open>A row whose Agent Code, Agent Name, User ID and User Name are all present.\<close>

definition identified :: "assignment \<Rightarrow> bool" where
  "identified r \<longleftrightarrow>
     notna (agent_code r) \<and> notna (agent_name r) \<and> notna (user_id r) \<and> notna (user_name r)"

text \<open>
  Source row \<open>i\<close> after forward-filling as the specification words it: each identifying
  field is the nearest value at or before row \<open>i\<close>, the Role is the row's own.
\<close>

definition filled_row :: "table \<Rightarrow> nat \<Rightarrow> assignment" where
  "filled_row src i =
     \<lparr>agent_code = last_value_upto (map agent_code src) i,
      agent_name = last_value_upto (map agent_name src) i,
      user_id = last_value_upto (map user_id src) i,
      user_name = last_value_upto (map user_name src) i,
      role = role (src ! i)\<rparr>"

text \<open>The position at which a value first occurs in a list (its length when it does not).\<close>

definition first_occurrence :: "'a list \<Rightarrow> 'a \<Rightarrow> nat" where
  "first_occurrence xs x = length (takeWhile (\<lambda>y. y \<noteq> x) xs)"

text \<open>
  Sample inputs: a sparse source in the layout the loader expects (it cleans to
  \<open>example_table\<close>), a source whose first row lacks all four identifying fields with the
  table it cleans to, and the frame of a file with three columns.
\<close>

definition sparse_frame :: raw_frame where
  "sparse_frame =
     \<lparr>n_columns = 5,
      records = [[str ''A1'', str ''Agt1'', str ''U1'', str ''Alice'', str ''Admin''],
                 [None, None, None, None, str ''Viewer''],
                 [None, None, None, None, None],
                 [str ''A2'', str ''Agt2'', str ''U2'', str ''Bob'', str ''Admin'']]\<rparr>"

definition headless_frame :: raw_frame where
  "headless_frame =
     \<lparr>n_columns = 5,
      records = [[None, None, None, None, str ''Admin''],
                 [str ''A1'', str ''Agt1'', str ''U1'', str ''Alice'', None],
                 [None, None, None, None, str ''Viewer'']]\<rparr>"

definition headless_table :: table where
  "headless_table =
     [\<lparr>agent_code = None, agent_name = None, user_id = None, user_name = None,
       role = str ''Admin''\<rparr>,
      \<lparr>agent_code = str ''A1'', agent_name = str ''Agt1'', user_id = str ''U1'',
       user_name = str ''Alice'', role = str ''Viewer''\<rparr>]"

definition narrow_frame :: raw_frame where
  "narrow_frame = \<lparr>n_columns = 3, records = [[str ''A1'', str ''Agt1'', str ''U1'']]\<rparr>"

text \<open>
  The table of a file whose five columns are all numbers (no row lacks a Role, so the
  loader returns its rows as they are); a table whose user names are numbers and whose
  roles are text; and a Role column holding a string beside a number, as pandas returns
  it when it infers the type of a long column piece by piece.
\<close>

definition numeric_table :: table where
  "numeric_table =
     [\<lparr>agent_code = num 10, agent_name = num 0, user_id = num 100, user_name = num 0,
       role = num 0\<rparr>,
      \<lparr>agent_code = num 11, agent_name = num 5, user_id = num 101, user_name = num 1,
       role = num 1\<rparr>]"

definition zero_user_table :: table where
  "zero_user_table =
     [\<lparr>agent_code = str ''A1'', agent_name = str ''Agt1'', user_id = str ''U1'',
       user_name = num 0, role = str ''Viewer''\<rparr>,
      \<lparr>agent_code = str ''A1'', agent_name = str ''Agt1'', user_id = str ''U1'',
       user_name = num 0, role = str ''Admin''\<rparr>,
      \<lparr>agent_code = str ''A2'', agent_name = str ''Agt2'', user_id = str ''U2'',
       user_name = num 7, role = str ''Admin''\<rparr>]"

definition mixed_role_table :: table where
  "mixed_role_table =
     [\<lparr>agent_code = str ''A1'', agent_name = str ''Agt1'', user_id = str ''U1'',
       user_name = str ''Alice'', role = str ''Admin''\<rparr>,
      \<lparr>agent_code = str ''A2'', agent_name = str ''Agt2'', user_id = str ''U2'',
       user_name = str ''Bob'', role = num 1\<rparr>]"

section \<open>Facts about the primitives\<close>

lemma notna_iff: "notna c \<longleftrightarrow> c \<noteq> None"
  by (cases c) (simp_all add: notna_def)

lemma length_ffill_from: "length (ffill_from p cs) = length cs"
  by (induction p cs rule: ffill_from.induct) simp_all

lemma length_ffill: "length (ffill cs) = length cs"
  by (simp add: ffill_def length_ffill_from)

lemma ffill_from_nth:
  "i < length cs \<Longrightarrow>
     ffill_from p cs ! i = (case dropna (take (Suc i) cs) of [] \<Rightarrow> p | v # vs \<Rightarrow> Some (last (v # vs)))"
proof (induction p cs arbitrary: i rule: ffill_from.induct)
  case (1 prev)
  then show ?case by simp
next
  case (2 prev cs)
  then show ?case by (cases i) simp_all
next
  case (3 prev v cs)
  show ?case
  proof (cases i)
    case 0
    then show ?thesis by simp
  next
    case (Suc k)
    with 3 have "ffill_from (Some v) cs ! k =
        (case dropna (take (Suc k) cs) of [] \<Rightarrow> Some v | w # ws \<Rightarrow> Some (last (w # ws)))"
      by simp
    with Suc show ?thesis by (simp split: list.splits)
  qed
qed

lemma ffill_nth: "i < length cs \<Longrightarrow> ffill cs ! i = last_value_upto cs i"
  by (simp add: ffill_def last_value_upto_def ffill_from_nth)

lemma set_dropna_aux: "dropna cs = [] \<longleftrightarrow> (\<forall>c \<in> set cs. c = None)"
  by (induction cs rule: dropna.induct) auto

lemma last_value_upto_None:
  "last_value_upto cs i = None \<longleftrightarrow> (\<forall>c \<in> set (take (Suc i) cs). c = None)"
  unfolding last_value_upto_def using set_dropna_aux [of "take (Suc i) cs"]
  by (auto split: list.splits)

lemma last_value_upto_first:
  assumes "cs \<noteq> []" "notna (hd cs)"
  shows "notna (last_value_upto cs i)"
proof -
  from assms obtain v cs' where "cs = Some v # cs'"
    by (cases cs; cases "hd cs") (auto simp: notna_def)
  then show ?thesis
    by (simp add: last_value_upto_def notna_def split: list.splits)
qed

lemma ffill_columns_eq: "ffill_columns t = map (filled_row t) [0..<length t]"
  unfolding ffill_columns_def Let_def
  by (rule map_cong) (simp_all add: filled_row_def ffill_nth)

lemma load_data_Inr:
  "load_data csv = Inr df \<longleftrightarrow>
     (\<exists>f. csv = Inr f \<and> n_columns f = 5 \<and>
          df = drop_missing_role (ffill_columns (map to_row (records f))))"
  by (auto simp: load_data_def split: sum.splits)

lemma cleaned_eq:
  "drop_missing_role (ffill_columns t) =
     map (filled_row t) (filter (\<lambda>i. notna (role (t ! i))) [0..<length t])"
  by (simp add: drop_missing_role_def ffill_columns_eq filter_map o_def filled_row_def)

lemma identified_filled_row:
  assumes "list_all identified (take 1 t)" "i < length t"
  shows "identified (filled_row t i)"
proof -
  from assms obtain r rs where t: "t = r # rs" by (cases t) auto
  with assms have "identified r" by simp
  then show ?thesis
    unfolding identified_def filled_row_def t
    by (simp add: last_value_upto_first)
qed

lemma role_ffill_columns: "map role (ffill_columns t) = map role t"
  by (rule nth_equalityI) (simp_all add: ffill_columns_eq filled_row_def)

lemma role_cleaned: "map role (drop_missing_role (ffill_columns t)) = filter notna (map role t)"
proof -
  have "map role (filter (\<lambda>r. notna (role r)) (ffill_columns t)) =
        filter notna (map role (ffill_columns t))"
    by (simp add: filter_map o_def)
  then show ?thesis
    by (simp add: drop_missing_role_def role_ffill_columns)
qed

lemma cleaned_role_notna: "r \<in> set (drop_missing_role t) \<Longrightarrow> role r \<noteq> None"
  by (simp add: drop_missing_role_def notna_iff)

section \<open>The loader: forward fill, completeness, failure, determinism\<close>

text \<open>
  Claim C1, as the code has it. For every source table the loader accepts, the cleaned
  table consists of the source rows that have a Role, in order, and each of them holds in
  Agent Code, Agent Name, User ID and User Name the nearest non-missing value at or
  before it in the same source column. Such a field stays missing when no row at or
  before it has a value in that column; when the first source row has all four, every
  retained row has all four.
\<close>

theorem load_data_forward_fill:
  assumes "load_data (Inr f) = Inr df"
  shows "df = map (filled_row (map to_row (records f)))
                (filter (\<lambda>i. notna (role (map to_row (records f) ! i))) [0..<length (records f)]) \<and>
         (list_all identified (take 1 (map to_row (records f))) \<longrightarrow> list_all identified df)"
proof -
  let ?src = "map to_row (records f)"
  from assms have df: "df = drop_missing_role (ffill_columns ?src)"
    by (simp add: load_data_Inr)
  have eq: "df = map (filled_row ?src) (filter (\<lambda>i. notna (role (?src ! i))) [0..<length (records f)])"
    unfolding df cleaned_eq by simp
  have "list_all identified df" if "list_all identified (take 1 ?src)"
    unfolding eq list_all_iff using that identified_filled_row [of ?src] by auto
  with eq show ?thesis by blast
qed

theorem load_data_forward_fill_witness:
  "load_data (Inr sparse_frame) = Inr example_table \<and>
   list_all identified (take 1 (map to_row (records sparse_frame))) \<and>
   list_all identified example_table"
proof -
  have loaded: "load_data (Inr sparse_frame) = Inr example_table"
    by code_simp
  have first: "list_all identified (take 1 (map to_row (records sparse_frame)))"
    by code_simp
  from load_data_forward_fill [OF loaded] first have "list_all identified example_table"
    by blast
  with loaded first show ?thesis by blast
qed

text \<open>
  Claim C1 as the specification states it fails: a first row without identifying fields
  has nothing above it to be filled from, and is retained with these fields missing.
\<close>

theorem load_data_leading_missing:
  "load_data (Inr headless_frame) =
     Inr [\<lparr>agent_code = None, agent_name = None, user_id = None, user_name = None,
           role = str ''Admin''\<rparr>,
          \<lparr>agent_code = str ''A1'', agent_name = str ''Agt1'', user_id = str ''U1'',
           user_name = str ''Alice'', role = str ''Viewer''\<rparr>]"
  by code_simp

text \<open>
  Claim C9. No row of the cleaned table has a missing Role: the Role column of the cleaned
  table is the Role column of the source with its missing cells removed, so that a source
  row without a Role is dropped as a whole and no Role is ever filled in from another row.
\<close>

theorem load_data_role_complete:
  assumes "load_data (Inr f) = Inr df"
  shows "(\<forall>r \<in> set df. role r \<noteq> None) \<and>
         map role df = filter notna (map (\<lambda>r. cell_at r 4) (records f))"
proof -
  from assms have df: "df = drop_missing_role (ffill_columns (map to_row (records f)))"
    by (simp add: load_data_Inr)
  have src: "map role (map to_row (records f)) = map (\<lambda>r. cell_at r 4) (records f)"
    by (simp add: to_row_def)
  have "map role df = filter notna (map (\<lambda>r. cell_at r 4) (records f))"
    unfolding df role_cleaned src ..
  moreover have "\<forall>r \<in> set df. role r \<noteq> None"
    unfolding df using cleaned_role_notna by blast
  ultimately show ?thesis by simp
qed

theorem load_data_role_complete_witness:
  "load_data (Inr sparse_frame) = Inr example_table \<and>
   map role example_table = [str ''Admin'', str ''Viewer'', str ''Admin''] \<and>
   list_all (\<lambda>r. role r \<noteq> None) example_table"
proof -
  have loaded: "load_data (Inr sparse_frame) = Inr example_table"
    by code_simp
  have cells: "filter notna (map (\<lambda>r. cell_at r 4) (records sparse_frame)) =
      [str ''Admin'', str ''Viewer'', str ''Admin'']"
    by code_simp
  from load_data_role_complete [OF loaded] cells
  have "map role example_table = [str ''Admin'', str ''Viewer'', str ''Admin'']"
    and "\<forall>r \<in> set example_table. role r \<noteq> None"
    by simp_all
  with loaded show ?thesis by (simp add: list_all_iff)
qed

text \<open>
  Claim C7. Loading fails fast: when the source file is missing (the reader raises
  \<open>FileNotFoundError\<close>) or the frame read has not five columns, \<open>load_data\<close> ends in an
  exception, there is no table, and nothing is put in the cache.
\<close>

theorem load_data_fails_fast:
  assumes "csv = Inl FileNotFoundError \<or> (\<exists>f. csv = Inr f \<and> n_columns f \<noteq> 5)"
  shows "\<exists>e. load_data csv = Inl e \<and> cached_load_data None csv = (Inl e, None)"
  using assms by (auto simp: load_data_def cached_load_data_def)

theorem load_data_fails_fast_witness:
  "n_columns narrow_frame \<noteq> 5 \<and>
   (\<exists>e. load_data (Inr narrow_frame) = Inl e \<and>
        cached_load_data None (Inr narrow_frame) = (Inl e, None))"
proof -
  have width: "n_columns narrow_frame \<noteq> 5"
    by (simp add: narrow_frame_def)
  then have "Inr narrow_frame = Inl FileNotFoundError \<or>
      (\<exists>f. (Inr narrow_frame :: py_error + raw_frame) = Inr f \<and> n_columns f \<noteq> 5)"
    by blast
  from load_data_fails_fast [OF this] width show ?thesis by blast
qed

text \<open>
  Claim C8. Loading is deterministic: the first load of a process returns what the
  transformation computes from the file contents, and loading the same contents again
  returns the same outcome, hence the same table with the same rows, values and order.
\<close>

theorem load_data_deterministic:
  "fst (cached_load_data None csv) = load_data csv \<and>
   fst (cached_load_data (snd (cached_load_data cache csv)) csv) = fst (cached_load_data cache csv)"
  by (simp add: cached_load_data_def split: option.splits sum.splits)

section \<open>Facts about the view primitives\<close>

lemma set_unique: "set (unique xs) = set xs"
  by (induction xs rule: unique.induct) auto

lemma distinct_unique: "distinct (unique xs)"
  by (induction xs rule: unique.induct) (auto simp: set_unique)

lemma length_unique: "length (unique xs) = card (set xs)"
  using distinct_card [OF distinct_unique, of xs] by (simp add: set_unique)

lemma set_dropna: "set (dropna cs) = {v. Some v \<in> set cs}"
  by (induction cs rule: dropna.induct) auto

lemma distinct_dropna: "distinct cs \<Longrightarrow> distinct (dropna cs)"
  by (induction cs rule: dropna.induct) (auto simp: set_dropna)

lemma count_dropna:
  "length (filter (\<lambda>w. w = v) (dropna cs)) = length (filter (\<lambda>c. c = Some v) cs)"
  by (induction cs rule: dropna.induct) auto

lemma set_sort_values_desc: "set (sort_values_desc ps) = set ps"
  by (simp add: sort_values_desc_def)

lemma distinct_map_insort_key:
  "distinct (map g (insort_key f x xs)) \<longleftrightarrow> g x \<notin> g ` set xs \<and> distinct (map g xs)"
  by (induction xs) (auto simp: set_insort_key)

lemma distinct_map_sort_key: "distinct (map g (sort_key f xs)) \<longleftrightarrow> distinct (map g xs)"
  by (induction xs) (simp_all add: distinct_map_insort_key)

lemma distinct_keys_sort_values_desc:
  "distinct (map fst (sort_values_desc ps)) \<longleftrightarrow> distinct (map fst ps)"
  by (simp add: sort_values_desc_def distinct_map_sort_key)

lemma descending_sort_values_desc:
  "sorted_wrt (\<lambda>p q. snd q \<le> snd p) (sort_values_desc ps)"
proof -
  have "sorted (map (\<lambda>p. - int (snd p)) (sort_values_desc ps))"
    unfolding sort_values_desc_def by (rule sorted_sort_key)
  then show ?thesis
    by (simp add: sorted_map)
qed

lemma nunique_card: "nunique cs = card {v. Some v \<in> set cs}"
  by (simp add: nunique_def length_unique set_dropna)

lemma set_group_keys: "set (group_keys cs) = {v. Some v \<in> set cs}"
  by (simp add: group_keys_def set_unique set_dropna)

lemma distinct_group_keys: "distinct (group_keys cs)"
  by (simp add: group_keys_def distinct_unique)

lemma sorted_group_keys: "sorted (group_keys cs)"
  by (simp add: group_keys_def)

lemma users_by_agent_set:
  "set (users_by_agent df) =
     (\<lambda>a. (a, card {u. \<exists>x \<in> set df. agent_name x = Some a \<and> user_id x = Some u})) `
       {a. \<exists>x \<in> set df. agent_name x = Some a}"
proof -
  have count: "nunique (map user_id (filter (\<lambda>r. agent_name r = Some a) df)) =
      card {u. \<exists>x \<in> set df. agent_name x = Some a \<and> user_id x = Some u}" for a
    unfolding nunique_card by (rule arg_cong [where f = card]) force
  have keys: "set (group_keys (map agent_name df)) = {a. \<exists>x \<in> set df. agent_name x = Some a}"
    unfolding set_group_keys by force
  show ?thesis
    unfolding users_by_agent_def set_map keys count ..
qed

lemma users_by_agent_keys: "map fst (users_by_agent df) = group_keys (map agent_name df)"
  by (simp add: users_by_agent_def o_def)

lemma value_counts_set:
  "set (value_counts cs) = (\<lambda>v. (v, length (filter (\<lambda>c. c = Some v) cs))) ` {v. Some v \<in> set cs}"
  by (simp add: value_counts_def Let_def set_sort_values_desc set_unique set_dropna count_dropna)

lemma value_counts_distinct: "distinct (map fst (value_counts cs))"
  by (simp add: value_counts_def Let_def distinct_keys_sort_values_desc o_def distinct_unique)

lemma first_occurrence_filter:
  assumes "a \<noteq> x"
  shows "first_occurrence (filter (\<lambda>y. y \<noteq> x) xs) a =
         length (filter (\<lambda>y. y \<noteq> x) (takeWhile (\<lambda>y. y \<noteq> a) xs))"
  using assms unfolding first_occurrence_def
  by (induction xs) auto

lemma first_occurrence_mono:
  assumes "a \<noteq> x" "b \<noteq> x"
    and "first_occurrence (filter (\<lambda>y. y \<noteq> x) xs) a < first_occurrence (filter (\<lambda>y. y \<noteq> x) xs) b"
  shows "first_occurrence xs a < first_occurrence xs b"
  using assms unfolding first_occurrence_def
  by (induction xs) (auto split: if_splits)

lemma unique_first_occurrence:
  "sorted_wrt (\<lambda>a b. first_occurrence xs a < first_occurrence xs b) (unique xs)"
proof (induction xs rule: unique.induct)
  case 1
  show ?case by simp
next
  case (2 x xs)
  let ?ys = "filter (\<lambda>y. y \<noteq> x) xs"
  have head: "first_occurrence (x # xs) x < first_occurrence (x # xs) b" if "b \<in> set (unique ?ys)" for b
    using that by (auto simp: first_occurrence_def set_unique)
  have step: "first_occurrence (x # xs) a < first_occurrence (x # xs) b"
    if "a \<in> set (unique ?ys)" "b \<in> set (unique ?ys)"
      "first_occurrence ?ys a < first_occurrence ?ys b" for a b
  proof -
    from that have ne: "a \<noteq> x" "b \<noteq> x" by (auto simp: set_unique)
    from ne that(3) have "first_occurrence xs a < first_occurrence xs b"
      by (rule first_occurrence_mono)
    with \<open>a \<noteq> x\<close> \<open>b \<noteq> x\<close> show ?thesis by (simp add: first_occurrence_def)
  qed
  have "sorted_wrt (\<lambda>a b. first_occurrence (x # xs) a < first_occurrence (x # xs) b) (unique ?ys)"
    using "2.IH" step by (rule sorted_wrt_mono_rel [rotated])
  with head show ?case by simp
qed

lemma set_str_values: "set (str_values cs) = {s. Some (Str s) \<in> set cs}"
  by (induction cs rule: str_values.induct) auto

lemma distinct_str_values: "distinct cs \<Longrightarrow> distinct (str_values cs)"
  by (induction cs rule: str_values.induct) (auto simp: set_str_values)

lemma is_str_iff: "is_str c \<longleftrightarrow> (\<exists>s. c = Some (Str s))"
  by (cases c rule: is_str.cases) simp_all

lemma sort_str_values_unique:
  "sort (str_values (unique cs)) = sorted_list_of_set {s. Some (Str s) \<in> set cs}"
proof (rule sorted_distinct_set_unique)
  show "sorted (sort (str_values (unique cs)))" by simp
  show "distinct (sort (str_values (unique cs)))"
    by (simp add: distinct_str_values distinct_unique)
  have fin: "finite {s. Some (Str s) \<in> set cs}"
    using finite_set [of "str_values cs"] by (simp only: set_str_values)
  then show "sorted (sorted_list_of_set {s. Some (Str s) \<in> set cs})"
    and "distinct (sorted_list_of_set {s. Some (Str s) \<in> set cs})"
    by simp_all
  from fin show "set (sort (str_values (unique cs))) =
      set (sorted_list_of_set {s. Some (Str s) \<in> set cs})"
    by (simp add: set_str_values set_unique)
qed

lemma card_strings:
  assumes "\<forall>c \<in> set cs. is_str c"
  shows "card (set cs) = card {s. Some (Str s) \<in> set cs}"
proof -
  have "set cs = (\<lambda>s. Some (Str s)) ` {s. Some (Str s) \<in> set cs}"
  proof (rule set_eqI)
    fix c
    show "c \<in> set cs \<longleftrightarrow> c \<in> (\<lambda>s. Some (Str s)) ` {s. Some (Str s) \<in> set cs}"
      using assms by (auto simp: is_str_iff)
  qed
  then have "card (set cs) = card ((\<lambda>s. Some (Str s)) ` {s. Some (Str s) \<in> set cs})"
    by simp
  also have "\<dots> = card {s. Some (Str s) \<in> set cs}"
    by (rule card_image) (simp add: inj_on_def)
  finally show ?thesis .
qed

lemma roles_cell_strings:
  assumes "\<forall>c \<in> set cs. is_str c"
  shows "roles_cell (unique cs) =
     Inr (join [CHR 0x0A] (sorted_list_of_set {s. Some (Str s) \<in> set cs}))"
proof -
  from assms have "list_all is_str (unique cs)"
    by (simp add: list_all_iff set_unique)
  then show ?thesis
    by (simp add: roles_cell_def sort_str_values_unique)
qed

lemma grouped_rows_strings:
  assumes "\<forall>x \<in> set dff. is_str (role x)"
  shows "grouped_rows dff us =
     Inr (map (\<lambda>u. \<lparr>ur_user_name = u,
                     ur_roles = join [CHR 0x0A]
                       (sorted_list_of_set {s. \<exists>x \<in> set dff. user_name x = Some u \<and> role x = Some (Str s)}),
                     ur_number_of_roles =
                       card {s. \<exists>x \<in> set dff. user_name x = Some u \<and> role x = Some (Str s)}\<rparr>) us)"
proof (induction us)
  case Nil
  show ?case by simp
next
  case (Cons u us)
  let ?cs = "map role (filter (\<lambda>r. user_name r = Some u) dff)"
  have strings: "\<forall>c \<in> set ?cs. is_str c"
    using assms by auto
  have roles: "{s. Some (Str s) \<in> set ?cs} =
      {s. \<exists>x \<in> set dff. user_name x = Some u \<and> role x = Some (Str s)}"
    by force
  have cell: "roles_cell (unique ?cs) = Inr (join [CHR 0x0A]
      (sorted_list_of_set {s. \<exists>x \<in> set dff. user_name x = Some u \<and> role x = Some (Str s)}))"
    using roles_cell_strings [OF strings] unfolding roles .
  have number: "length (unique ?cs) =
      card {s. \<exists>x \<in> set dff. user_name x = Some u \<and> role x = Some (Str s)}"
    using card_strings [OF strings] unfolding roles by (simp add: length_unique)
  show ?case
    by (simp only: grouped_rows.simps Let_def cell number Cons.IH sum.case list.map)
qed

section \<open>Properties of the views\<close>

text \<open>
  Claim C2, as the code has it. For a selected role \<open>r\<close> that Python counts as true
  (not zero, not \<open>False\<close>, not the empty string), on a table whose distinct roles line 40
  can sort (all strings, or none a string), the Filter-by-Role view shows exactly the
  (User ID, User Name, Agent Name) triples of the rows whose Role is \<open>r\<close>, each once, and
  reports their number as the user count. On the three example rows and \<open>r = Admin\<close>
  these are (U1, Alice, Agt1) and (U2, Bob, Agt2).
\<close>

theorem page_filter_by_role_spec:
  assumes "truthy (Selected (Some r))" and "sortable (unique (map role df))"
  shows "(\<exists>users.
            page_filter_by_role df (Selected (Some r)) =
              Inr (Some (users, card {(user_id x, user_name x, agent_name x) | x.
                                        x \<in> set df \<and> role x = Some r})) \<and>
            distinct users \<and>
            set users = {(user_id x, user_name x, agent_name x) | x. x \<in> set df \<and> role x = Some r}) \<and>
         page_filter_by_role example_table (Selected (str ''Admin'')) =
           Inr (Some ([(str ''U1'', str ''Alice'', str ''Agt1''),
                       (str ''U2'', str ''Bob'', str ''Agt2'')], 2))"
proof -
  let ?users = "drop_duplicates (map (\<lambda>x. (user_id x, user_name x, agent_name x))
      (filter (\<lambda>x. role x = Some r) df))"
  let ?S = "{(user_id x, user_name x, agent_name x) | x. x \<in> set df \<and> role x = Some r}"
  have set_users: "set ?users = ?S"
    by (auto simp: drop_duplicates_def set_unique)
  have dist: "distinct ?users"
    by (simp add: drop_duplicates_def distinct_unique)
  have "length ?users = card ?S"
    using distinct_card [OF dist] set_users by simp
  with assms have "page_filter_by_role df (Selected (Some r)) = Inr (Some (?users, card ?S))"
    by (simp add: page_filter_by_role_def Let_def)
  with dist set_users have general:
    "\<exists>users. page_filter_by_role df (Selected (Some r)) = Inr (Some (users, card ?S)) \<and>
      distinct users \<and> set users = ?S"
    by blast
  have example: "page_filter_by_role example_table (Selected (str ''Admin'')) =
      Inr (Some ([(str ''U1'', str ''Alice'', str ''Agt1''),
                  (str ''U2'', str ''Bob'', str ''Agt2'')], 2))"
    by code_simp
  from general example show ?thesis by (rule conjI)
qed

theorem page_filter_by_role_spec_witness:
  "truthy (Selected (str ''Admin'')) \<and> sortable (unique (map role example_table)) \<and>
   page_filter_by_role example_table (Selected (str ''Admin'')) =
     Inr (Some ([(str ''U1'', str ''Alice'', str ''Agt1''),
                 (str ''U2'', str ''Bob'', str ''Agt2'')], 2))"
proof -
  have sel: "truthy (Selected (str ''Admin''))" by simp
  have options: "sortable (unique (map role example_table))" by code_simp
  from page_filter_by_role_spec [OF sel options] sel options show ?thesis by blast
qed

text \<open>
  Claim C2 as the specification states it, for every Role value, fails: in a file whose
  Role column is numeric the role 0 is a Role value of the cleaned table, and selecting
  it shows nothing, because \<open>if selected_role:\<close> is false; and on a Role column holding a
  string beside a number the page raises at line 40.
\<close>

theorem page_filter_by_role_falsy_or_mixed:
  "page_filter_by_role numeric_table (Selected (num 0)) = Inr None \<and>
   page_filter_by_role mixed_role_table (Selected (str ''Admin'')) = Inl TypeError"
  by code_simp

text \<open>
  Claim C3, as the code has it. For a selected agent \<open>a\<close> that Python counts as true, on a
  table whose agent names lines 74 and 75 can sort and in which the rows of \<open>a\<close> all have
  a string as Role, the Agent, Users, Roles view shows one row per distinct User Name
  among the rows of \<open>a\<close>; the Roles field of a row is the set of the distinct roles of
  that user under \<open>a\<close>, sorted and joined by a newline, and its Number of Roles is the
  size of that set. For Agt1 in the example rows the view shows
  (Alice, "Admin\nViewer", 2).
\<close>

theorem page_agent_users_roles_spec:
  assumes "truthy (Selected (Some a))"
    and "sortable (map Some (unique (dropna (map agent_name df))))"
    and "\<forall>x \<in> set df. agent_name x = Some a \<longrightarrow> is_str (role x)"
  shows "(\<exists>grouped.
            page_agent_users_roles df (Selected (Some a)) = Inr (Some (grouped, length grouped)) \<and>
            distinct (map ur_user_name grouped) \<and>
            set (map ur_user_name grouped) =
              {u. \<exists>x \<in> set df. agent_name x = Some a \<and> user_name x = Some u} \<and>
            (\<forall>g \<in> set grouped.
               ur_roles g = join [CHR 0x0A] (sorted_list_of_set
                 {s. \<exists>x \<in> set df. agent_name x = Some a \<and> user_name x = Some (ur_user_name g) \<and>
                       role x = Some (Str s)}) \<and>
               ur_number_of_roles g = card
                 {s. \<exists>x \<in> set df. agent_name x = Some a \<and> user_name x = Some (ur_user_name g) \<and>
                       role x = Some (Str s)})) \<and>
         page_agent_users_roles example_table (Selected (str ''Agt1'')) =
           Inr (Some ([\<lparr>ur_user_name = Str ''Alice'', ur_roles = ''Admin'' @ [CHR 0x0A] @ ''Viewer'',
                        ur_number_of_roles = 2\<rparr>], 1))"
proof -
  let ?dff = "filter (\<lambda>r. agent_name r = Some a) df"
  let ?keys = "group_keys (map user_name ?dff)"
  let ?row = "\<lambda>u. \<lparr>ur_user_name = u,
                     ur_roles = join [CHR 0x0A]
                       (sorted_list_of_set {s. \<exists>x \<in> set ?dff. user_name x = Some u \<and> role x = Some (Str s)}),
                     ur_number_of_roles =
                       card {s. \<exists>x \<in> set ?dff. user_name x = Some u \<and> role x = Some (Str s)}\<rparr>"
  let ?grouped = "map ?row ?keys"
  from assms(3) have "\<forall>x \<in> set ?dff. is_str (role x)" by simp
  then have rows: "grouped_rows ?dff ?keys = Inr ?grouped"
    by (rule grouped_rows_strings)
  have mask: "filter (\<lambda>r. equals_selected (Selected (Some a)) (agent_name r)) df = ?dff"
    by simp
  from assms(1,2) have page:
    "page_agent_users_roles df (Selected (Some a)) = Inr (Some (?grouped, length ?grouped))"
    unfolding page_agent_users_roles_def Let_def mask rows by simp
  have names: "map ur_user_name ?grouped = ?keys"
    by (simp add: o_def)
  have dist: "distinct (map ur_user_name ?grouped)"
    unfolding names by (rule distinct_group_keys)
  have users: "set (map ur_user_name ?grouped) =
      {u. \<exists>x \<in> set df. agent_name x = Some a \<and> user_name x = Some u}"
    unfolding names set_group_keys by force
  have roles: "{s. \<exists>x \<in> set ?dff. user_name x = Some u \<and> role x = Some (Str s)} =
      {s. \<exists>x \<in> set df. agent_name x = Some a \<and> user_name x = Some u \<and> role x = Some (Str s)}" for u
    by auto
  have each: "\<forall>g \<in> set ?grouped.
      ur_roles g = join [CHR 0x0A] (sorted_list_of_set
        {s. \<exists>x \<in> set df. agent_name x = Some a \<and> user_name x = Some (ur_user_name g) \<and>
              role x = Some (Str s)}) \<and>
      ur_number_of_roles g = card
        {s. \<exists>x \<in> set df. agent_name x = Some a \<and> user_name x = Some (ur_user_name g) \<and>
              role x = Some (Str s)}"
    unfolding roles by simp
  have example: "page_agent_users_roles example_table (Selected (str ''Agt1'')) =
      Inr (Some ([\<lparr>ur_user_name = Str ''Alice'', ur_roles = ''Admin'' @ [CHR 0x0A] @ ''Viewer'',
                   ur_number_of_roles = 2\<rparr>], 1))"
    by code_simp
  from page dist users each example show ?thesis by blast
qed

theorem page_agent_users_roles_spec_witness:
  "truthy (Selected (str ''Agt1'')) \<and>
   sortable (map Some (unique (dropna (map agent_name example_table)))) \<and>
   list_all (\<lambda>x. is_str (role x)) example_table \<and>
   page_agent_users_roles example_table (Selected (str ''Agt1'')) =
     Inr (Some ([\<lparr>ur_user_name = Str ''Alice'', ur_roles = ''Admin'' @ [CHR 0x0A] @ ''Viewer'',
                  ur_number_of_roles = 2\<rparr>], 1))"
proof -
  have sel: "truthy (Selected (str ''Agt1''))" by simp
  have options: "sortable (map Some (unique (dropna (map agent_name example_table))))"
    by code_simp
  have roles: "list_all (\<lambda>x. is_str (role x)) example_table"
    by code_simp
  then have "\<forall>x \<in> set example_table. agent_name x = str ''Agt1'' \<longrightarrow> is_str (role x)"
    by (simp only: list_all_iff) blast
  from page_agent_users_roles_spec [OF sel options this] sel options roles show ?thesis by blast
qed

text \<open>
  Claim C3 as the specification states it, for every Agent Name of a cleaned table,
  fails: on the table of an all-numeric file no Role is missing, yet for agent 5 the page
  raises \<open>TypeError\<close> in \<open>'\n'.join(sorted(roles))\<close>, and for agent 0 it shows nothing.
\<close>

theorem page_agent_users_roles_numeric:
  "page_agent_users_roles numeric_table (Selected (num 5)) = Inl TypeError \<and>
   page_agent_users_roles numeric_table (Selected (num 0)) = Inr None"
  by code_simp

text \<open>
  Claim C4. The role counts of the statistics view give every Role of the table exactly
  once, with the number of rows that carry it (a user with the role on two rows counts
  twice), and they are in descending order of that number.
\<close>

theorem role_counts_spec:
  "set (role_counts (page_statistics df)) =
     (\<lambda>r. (r, length (filter (\<lambda>x. role x = Some r) df))) ` {r. \<exists>x \<in> set df. role x = Some r} \<and>
   distinct (map fst (role_counts (page_statistics df))) \<and>
   sorted_wrt (\<lambda>p q. snd q \<le> snd p) (role_counts (page_statistics df))"
proof -
  have rows: "length (filter (\<lambda>c. c = Some r) (map role df)) =
      length (filter (\<lambda>x. role x = Some r) df)" for r
    by (simp add: filter_map o_def)
  have keys: "{r. Some r \<in> set (map role df)} = {r. \<exists>x \<in> set df. role x = Some r}"
    by force
  have "set (role_counts (page_statistics df)) =
     (\<lambda>r. (r, length (filter (\<lambda>x. role x = Some r) df))) ` {r. \<exists>x \<in> set df. role x = Some r}"
  proof -
    have "role_counts (page_statistics df) = value_counts (map role df)"
      by (simp add: page_statistics_def)
    then show ?thesis
      by (simp only: value_counts_set rows keys)
  qed
  moreover have "distinct (map fst (role_counts (page_statistics df)))"
    by (simp add: page_statistics_def value_counts_distinct)
  moreover have "sorted_wrt (\<lambda>p q. snd q \<le> snd p) (role_counts (page_statistics df))"
    by (simp add: page_statistics_def value_counts_def Let_def descending_sort_values_desc)
  ultimately show ?thesis by blast
qed

theorem role_counts_spec_witness:
  "set (role_counts (page_statistics example_table)) =
     (\<lambda>r. (r, length (filter (\<lambda>x. role x = Some r) example_table))) `
       {r. \<exists>x \<in> set example_table. role x = Some r} \<and>
   role_counts (page_statistics example_table) = [(Str ''Admin'', 2), (Str ''Viewer'', 1)]"
proof -
  have "role_counts (page_statistics example_table) = [(Str ''Admin'', 2), (Str ''Viewer'', 1)]"
    by code_simp
  with role_counts_spec [of example_table] show ?thesis by blast
qed

text \<open>
  Claim C5. For every Agent Name of the table, the agent user-count view and the
  statistics view both report the number of distinct User ID values among the rows of
  that agent, one entry per agent; the statistics view has the same entries in descending
  order of the count.
\<close>

theorem users_per_agent_spec:
  "set (page_agent_user_counts df) =
     (\<lambda>a. (a, card {u. \<exists>x \<in> set df. agent_name x = Some a \<and> user_id x = Some u})) `
       {a. \<exists>x \<in> set df. agent_name x = Some a} \<and>
   distinct (map fst (page_agent_user_counts df)) \<and>
   set (users_per_agent (page_statistics df)) = set (page_agent_user_counts df) \<and>
   distinct (map fst (users_per_agent (page_statistics df))) \<and>
   sorted_wrt (\<lambda>p q. snd q \<le> snd p) (users_per_agent (page_statistics df))"
  by (simp add: page_agent_user_counts_def page_statistics_def users_by_agent_set
      users_by_agent_keys distinct_group_keys set_sort_values_desc
      distinct_keys_sort_values_desc descending_sort_values_desc)

theorem users_per_agent_spec_witness:
  "set (users_per_agent (page_statistics example_table)) = set (page_agent_user_counts example_table) \<and>
   page_agent_user_counts example_table = [(Str ''Agt1'', 1), (Str ''Agt2'', 1)]"
proof -
  have "page_agent_user_counts example_table = [(Str ''Agt1'', 1), (Str ''Agt2'', 1)]"
    by code_simp
  with users_per_agent_spec [of example_table] show ?thesis by blast
qed

text \<open>
  Claim C6, as the code has it. For a selected user name \<open>u\<close> that Python counts as true,
  on a table whose distinct user names (a missing one included) line 59 can sort, the
  Filter-by-User view lists the distinct Role values among the rows whose User Name is
  \<open>u\<close>, each once, and reports their number. On the three example rows, Alice has the
  roles Admin and Viewer, and the count is 2.
\<close>

theorem page_filter_by_user_spec:
  assumes "truthy (Selected (Some u))" and "sortable (unique (map user_name df))"
  shows "(\<exists>roles.
            page_filter_by_user df (Selected (Some u)) =
              Inr (Some (card (role ` {x \<in> set df. user_name x = Some u}), roles)) \<and>
            distinct roles \<and>
            set roles = role ` {x \<in> set df. user_name x = Some u}) \<and>
         (\<exists>roles. page_filter_by_user example_table (Selected (str ''Alice'')) = Inr (Some (2, roles)) \<and>
            set roles = {str ''Admin'', str ''Viewer''})"
proof -
  let ?roles = "unique (map role (filter (\<lambda>x. user_name x = Some u) df))"
  let ?S = "role ` {x \<in> set df. user_name x = Some u}"
  have set_roles: "set ?roles = ?S"
    by (auto simp: set_unique)
  have dist: "distinct ?roles"
    by (rule distinct_unique)
  have "length ?roles = card ?S"
    using distinct_card [OF dist] set_roles by simp
  with assms have "page_filter_by_user df (Selected (Some u)) = Inr (Some (card ?S, ?roles))"
    by (simp add: page_filter_by_user_def Let_def)
  with dist set_roles have general:
    "\<exists>roles. page_filter_by_user df (Selected (Some u)) = Inr (Some (card ?S, roles)) \<and>
      distinct roles \<and> set roles = ?S"
    by blast
  have "page_filter_by_user example_table (Selected (str ''Alice'')) =
      Inr (Some (2, [str ''Admin'', str ''Viewer'']))"
    by code_simp
  then have example: "\<exists>roles. page_filter_by_user example_table (Selected (str ''Alice'')) =
      Inr (Some (2, roles)) \<and> set roles = {str ''Admin'', str ''Viewer''}"
    by simp
  from general example show ?thesis by (rule conjI)
qed

theorem page_filter_by_user_spec_witness:
  "truthy (Selected (str ''Alice'')) \<and> sortable (unique (map user_name example_table)) \<and>
   (\<exists>roles. page_filter_by_user example_table (Selected (str ''Alice'')) = Inr (Some (2, roles)) \<and>
      set roles = {str ''Admin'', str ''Viewer''})"
proof -
  have sel: "truthy (Selected (str ''Alice''))" by simp
  have options: "sortable (unique (map user_name example_table))" by code_simp
  from page_filter_by_user_spec [OF sel options] sel options show ?thesis by blast
qed

text \<open>
  Claim C6 as the specification states it, for every User Name of a cleaned table, fails:
  the loader returns \<open>headless_table\<close>, in which Alice is a user name, and there the page
  raises \<open>TypeError\<close> at line 59, sorting a missing name beside a string; and in the table
  of an all-numeric file the user name 0 is shown no roles.
\<close>

theorem page_filter_by_user_missing_or_falsy:
  "load_data (Inr headless_frame) = Inr headless_table \<and>
   page_filter_by_user headless_table (Selected (str ''Alice'')) = Inl TypeError \<and>
   page_filter_by_user numeric_table (Selected (num 0)) = Inr None"
  by code_simp

text \<open>
  Claim C10, as the code has it. For a selected user name that Python counts as true (on
  a table whose user names line 59 can sort, so that there is a selection), the roles the
  Filter-by-User view lists are the roles of the selected user in the order in which they
  first occur among that user's rows in the table.
\<close>

theorem page_filter_by_user_order:
  assumes "truthy (Selected (Some u))" and "sortable (unique (map user_name df))"
  shows "\<exists>n roles.
           page_filter_by_user df (Selected (Some u)) = Inr (Some (n, roles)) \<and>
           set roles = set (map role (filter (\<lambda>x. user_name x = Some u) df)) \<and>
           sorted_wrt (\<lambda>a b. first_occurrence (map role (filter (\<lambda>x. user_name x = Some u) df)) a
                            < first_occurrence (map role (filter (\<lambda>x. user_name x = Some u) df)) b) roles"
proof -
  let ?xs = "map role (filter (\<lambda>x. user_name x = Some u) df)"
  from assms have "page_filter_by_user df (Selected (Some u)) =
      Inr (Some (length (unique ?xs), unique ?xs))"
    by (simp add: page_filter_by_user_def Let_def)
  moreover have "set (unique ?xs) = set ?xs"
    by (rule set_unique)
  moreover have "sorted_wrt (\<lambda>a b. first_occurrence ?xs a < first_occurrence ?xs b) (unique ?xs)"
    by (rule unique_first_occurrence)
  ultimately show ?thesis by blast
qed

theorem page_filter_by_user_order_witness:
  "truthy (Selected (str ''Alice'')) \<and> sortable (unique (map user_name (rev example_table))) \<and>
   (\<exists>n roles. page_filter_by_user (rev example_table) (Selected (str ''Alice'')) = Inr (Some (n, roles)) \<and>
      roles = [str ''Viewer'', str ''Admin''] \<and>
      sorted_wrt (\<lambda>a b.
          first_occurrence (map role (filter (\<lambda>x. user_name x = str ''Alice'') (rev example_table))) a
        < first_occurrence (map role (filter (\<lambda>x. user_name x = str ''Alice'') (rev example_table))) b)
        roles)"
proof -
  have sel: "truthy (Selected (str ''Alice''))" by simp
  have options: "sortable (unique (map user_name (rev example_table)))" by code_simp
  have shown: "page_filter_by_user (rev example_table) (Selected (str ''Alice'')) =
      Inr (Some (2, [str ''Viewer'', str ''Admin'']))"
    by code_simp
  from page_filter_by_user_order [OF sel options] shown sel options
  show ?thesis by auto
qed

text \<open>
  Claim C10 as stated, for every selected User Name, fails: the user named 0 has the
  roles Viewer and Admin in \<open>zero_user_table\<close>, and with that name selected no role is
  listed at all.
\<close>

theorem page_filter_by_user_zero_name:
  "page_filter_by_user zero_user_table (Selected (num 0)) = Inr None"
  by code_simp

end
